theory Spec2Isabelle
  imports Main
begin

section \<open>Data model\<close>

text \<open>
  The service class \<^verbatim>\<open>WhatsAppService\<close> (src/services/WhatsAppService.ts) keeps six private
  fields; \<^verbatim>\<open>getStatus()\<close> returns a copy of them as a \<^verbatim>\<open>SessionStatus\<close>. What the class does
  beyond updating its fields is made visible in two logs carried by the same record:
  \<open>emitted\<close> lists the events republished with \<^verbatim>\<open>this.emit(...)\<close>, oldest first, and \<open>calls\<close>
  lists the calls made on the wrapped client and on the chat and contact objects it hands out.

  Exceptions are values. \<^verbatim>\<open>WhatsAppError\<close> carries its \<^verbatim>\<open>code\<close>; its human-readable message
  and its \<^verbatim>\<open>statusCode\<close> (never passed, hence always the default 500) play no part below.
  Anything else thrown by the wrapped client is a \<open>ForeignError\<close>.
\<close>

datatype js_error = WhatsAppError string | ForeignError string

type_synonym 'a outcome = "js_error + 'a"

record message =
  msg_id :: string
  msg_from :: string
  msg_to :: string
  msg_body :: string
  msg_fromMe :: bool

record client_info =
  wid_user :: "string option"
  pushname :: "string option"

record SessionStatus =
  st_isReady :: bool
  st_isAuthenticated :: bool
  st_qrCode :: "string option"
  st_phoneNumber :: "string option"
  st_name :: "string option"
  st_lastSeen :: nat

text \<open>The payload of \<^verbatim>\<open>client.sendMessage\<close>: a text, or a media object with its caption option.\<close>

datatype content = Text string | Media string "string option"

datatype chat_method =
  GetInviteCode | FetchMessages nat | SendSeen | Mute "nat option" | Unmute
  | Archive | Unarchive | Delete | Pin | Unpin

datatype contact_method = GetProfilePicUrl | Block | Unblock

datatype client_call =
  CallSendMessage string content
  | CallGetContacts
  | CallGetChats
  | CallGetChatById string
  | CallCreateGroup string "string list"
  | CallAcceptInvite string
  | CallGetContactById string
  | CallSetStatus string
  | CallLogout
  | CallDestroy
  | CallOnChat string chat_method
  | CallOnContact string contact_method

text \<open>
  The raw events of the wrapped client that \<^verbatim>\<open>setupEventListeners\<close> subscribes to. Every
  handler republishes the event under the same name with the same arguments, so the same
  type serves for the entries of \<open>emitted\<close>.
\<close>

datatype client_event =
  EvQr string
  | EvAuthenticated
  | EvAuthFailure string
  | EvReady
  | EvDisconnected string
  | EvMessage message
  | EvMessageCreate message
  | EvMessageAck message nat
  | EvMessageReaction string
  | EvGroupJoin string
  | EvGroupLeave string
  | EvBatteryChanged string
  | EvStateChanged string

record service =
  isReady :: bool
  isAuthenticated :: bool
  qrCode :: "string option"
  phoneNumber :: "string option"
  name :: "string option"
  lastSeen :: nat
  emitted :: "client_event list"
  calls :: "client_call list"

text \<open>The field initialisers of the class (lines 12 to 17).\<close>

definition initial :: service where
  "initial = \<lparr> isReady = False, isAuthenticated = False, qrCode = None,
     phoneNumber = None, name = None, lastSeen = 0, emitted = [], calls = [] \<rparr>"

definition getStatus :: "service \<Rightarrow> SessionStatus" where
  "getStatus s = \<lparr> st_isReady = isReady s, st_isAuthenticated = isAuthenticated s,
     st_qrCode = qrCode s, st_phoneNumber = phoneNumber s, st_name = name s,
     st_lastSeen = lastSeen s \<rparr>"

section \<open>Lifecycle and message event handlers\<close>

text \<open>
  \<^verbatim>\<open>x || null\<close> on an optional string: \<^verbatim>\<open>undefined\<close> and the empty string are both falsy.
\<close>

definition or_null :: "string option \<Rightarrow> string option" where
  "or_null v = (case v of None \<Rightarrow> None | Some x \<Rightarrow> if x = [] then None else Some x)"

definition emit :: "client_event \<Rightarrow> service \<Rightarrow> service" where
  "emit e s = s\<lparr> emitted := emitted s @ [e] \<rparr>"

text \<open>
  One handler invocation. \<open>now\<close> is what \<^verbatim>\<open>Date.now()\<close> returns during the invocation and
  \<open>info\<close> is \<^verbatim>\<open>this.client.info\<close> at that moment (only the \<^verbatim>\<open>ready\<close> handler reads either).
\<close>

fun handle :: "nat \<Rightarrow> client_info option \<Rightarrow> client_event \<Rightarrow> service \<Rightarrow> service" where
  "handle now info (EvQr qr) s = emit (EvQr qr) (s\<lparr> qrCode := Some qr \<rparr>)"
| "handle now info EvAuthenticated s = emit EvAuthenticated (s\<lparr> isAuthenticated := True \<rparr>)"
| "handle now info (EvAuthFailure msg) s =
     emit (EvAuthFailure msg) (s\<lparr> isAuthenticated := False \<rparr>)"
| "handle now info EvReady s =
     emit EvReady (s\<lparr> isReady := True, isAuthenticated := True, lastSeen := now,
       phoneNumber := or_null (case info of None \<Rightarrow> None | Some i \<Rightarrow> wid_user i),
       name := or_null (case info of None \<Rightarrow> None | Some i \<Rightarrow> pushname i),
       qrCode := None \<rparr>)"
| "handle now info (EvDisconnected reason) s =
     emit (EvDisconnected reason) (s\<lparr> isReady := False, isAuthenticated := False \<rparr>)"
| "handle now info (EvMessage m) s = (emit (EvMessage m) s)\<lparr> lastSeen := now \<rparr>"
| "handle now info (EvMessageCreate m) s = (emit (EvMessageCreate m) s)\<lparr> lastSeen := now \<rparr>"
| "handle now info (EvMessageAck m ack) s = emit (EvMessageAck m ack) s"
| "handle now info (EvMessageReaction r) s = emit (EvMessageReaction r) s"
| "handle now info (EvGroupJoin n) s = emit (EvGroupJoin n) s"
| "handle now info (EvGroupLeave n) s = emit (EvGroupLeave n) s"
| "handle now info (EvBatteryChanged b) s = emit (EvBatteryChanged b) s"
| "handle now info (EvStateChanged st) s = emit (EvStateChanged st) s"

text \<open>
  The five session lifecycle events, as opposed to the message, group, battery and
  connection-state notifications.
\<close>

fun lifecycle :: "client_event \<Rightarrow> bool" where
  "lifecycle (EvQr qr) = True"
| "lifecycle EvAuthenticated = True"
| "lifecycle (EvAuthFailure msg) = True"
| "lifecycle EvReady = True"
| "lifecycle (EvDisconnected reason) = True"
| "lifecycle e = False"

text \<open>
  A stimulus is one raw event together with the clock reading and the client info at its
  arrival; \<open>feed\<close> runs the handlers over a sequence of stimuli in arrival order.
\<close>

type_synonym stimulus = "nat \<times> client_info option \<times> client_event"

fun feed :: "stimulus list \<Rightarrow> service \<Rightarrow> service" where
  "feed [] s = s"
| "feed ((now, info, e) # rest) s = feed rest (handle now info e s)"

section \<open>The wrapped client\<close>

text \<open>
  The wrapped client (\<^verbatim>\<open>whatsapp-web.js\<close>) is an external collaborator. It is modelled as a
  stub: a record giving, for every method the service calls, the outcome of the call,
  \<open>Inl\<close> for a rejected promise or a thrown exception and \<open>Inr\<close> for the resolved value. Chats
  and contacts returned by the client are objects with methods of their own.
\<close>

datatype chat_action = SendSeen | Mute "nat option" | Unmute | Archive | Unarchive | Delete | Pin | Unpin

record chat =
  chat_id :: string
  isGroup :: bool
  chat_getInviteCode :: "string outcome"
  chat_fetchMessages :: "nat \<Rightarrow> message list outcome"
  chat_sendSeen :: "unit outcome"
  chat_mute :: "nat option \<Rightarrow> unit outcome"
  chat_unmute :: "unit outcome"
  chat_archive :: "unit outcome"
  chat_unarchive :: "unit outcome"
  chat_delete :: "unit outcome"
  chat_pin :: "unit outcome"
  chat_unpin :: "unit outcome"

record contact =
  contact_id :: string
  contact_getProfilePicUrl :: "string option outcome"
  contact_block :: "unit outcome"
  contact_unblock :: "unit outcome"

record groupchat =
  group_id :: string
  group_name :: string

record client =
  c_sendMessage :: "string \<Rightarrow> content \<Rightarrow> message outcome"
  c_getContacts :: "contact list outcome"
  c_getChats :: "chat list outcome"
  c_getChatById :: "string \<Rightarrow> chat outcome"
  c_createGroup :: "string \<Rightarrow> string list \<Rightarrow> groupchat outcome"
  c_acceptInvite :: "string \<Rightarrow> groupchat outcome"
  c_getContactById :: "string \<Rightarrow> contact outcome"
  c_setStatus :: "string \<Rightarrow> unit outcome"
  c_logout :: "unit outcome"
  c_destroy :: "unit outcome"
  c_info :: "client_info option"

fun invoke :: "chat \<Rightarrow> chat_action \<Rightarrow> unit outcome" where
  "invoke c SendSeen = chat_sendSeen c"
| "invoke c (Mute d) = chat_mute c d"
| "invoke c Unmute = chat_unmute c"
| "invoke c Archive = chat_archive c"
| "invoke c Unarchive = chat_unarchive c"
| "invoke c Delete = chat_delete c"
| "invoke c Pin = chat_pin c"
| "invoke c Unpin = chat_unpin c"

fun as_method :: "chat_action \<Rightarrow> chat_method" where
  "as_method SendSeen = chat_method.SendSeen"
| "as_method (Mute d) = chat_method.Mute d"
| "as_method Unmute = chat_method.Unmute"
| "as_method Archive = chat_method.Archive"
| "as_method Unarchive = chat_method.Unarchive"
| "as_method Delete = chat_method.Delete"
| "as_method Pin = chat_method.Pin"
| "as_method Unpin = chat_method.Unpin"

definition called :: "client_call \<Rightarrow> service \<Rightarrow> service" where
  "called c s = s\<lparr> calls := calls s @ [c] \<rparr>"

section \<open>The operations of the service\<close>

text \<open>
  Every operation takes the stub client, the state before the call and, where the source
  reads \<^verbatim>\<open>Date.now()\<close>, that clock reading; it returns the outcome of the promise and the
  state after. Logging is left out, and the values the stub resolves with are well-formed
  for their TypeScript types. An operation runs without another handler or operation
  running between its \<^verbatim>\<open>await\<close>s.
\<close>

definition not_ready :: "'a outcome" where
  "not_ready = Inl (WhatsAppError ''NOT_READY'')"

definition sendMessage :: "client \<Rightarrow> nat \<Rightarrow> string \<Rightarrow> string \<Rightarrow> service \<Rightarrow> message outcome \<times> service" where
  "sendMessage cl now to body s =
     (if \<not> isReady s then (not_ready, s)
      else case c_sendMessage cl to (Text body) of
             Inr m \<Rightarrow> (Inr m, (called (CallSendMessage to (Text body)) s)\<lparr> lastSeen := now \<rparr>)
           | Inl e \<Rightarrow> (Inl (WhatsAppError ''SEND_ERROR''), called (CallSendMessage to (Text body)) s))"

definition sendMedia :: "client \<Rightarrow> nat \<Rightarrow> string \<Rightarrow> string \<Rightarrow> string option \<Rightarrow> service \<Rightarrow> message outcome \<times> service" where
  "sendMedia cl now to media caption s =
     (if \<not> isReady s then (not_ready, s)
      else case c_sendMessage cl to (Media media caption) of
             Inr m \<Rightarrow> (Inr m, (called (CallSendMessage to (Media media caption)) s)\<lparr> lastSeen := now \<rparr>)
           | Inl e \<Rightarrow> (Inl (WhatsAppError ''SEND_MEDIA_ERROR''),
                       called (CallSendMessage to (Media media caption)) s))"

definition getContacts :: "client \<Rightarrow> service \<Rightarrow> contact list outcome \<times> service" where
  "getContacts cl s =
     (if \<not> isReady s then (not_ready, s)
      else case c_getContacts cl of
             Inr cs \<Rightarrow> (Inr cs, called CallGetContacts s)
           | Inl e \<Rightarrow> (Inl (WhatsAppError ''GET_CONTACTS_ERROR''), called CallGetContacts s))"

definition getChats :: "client \<Rightarrow> service \<Rightarrow> chat list outcome \<times> service" where
  "getChats cl s =
     (if \<not> isReady s then (not_ready, s)
      else case c_getChats cl of
             Inr cs \<Rightarrow> (Inr cs, called CallGetChats s)
           | Inl e \<Rightarrow> (Inl (WhatsAppError ''GET_CHATS_ERROR''), called CallGetChats s))"

definition getChatById :: "client \<Rightarrow> string \<Rightarrow> service \<Rightarrow> chat outcome \<times> service" where
  "getChatById cl chatId s =
     (if \<not> isReady s then (not_ready, s)
      else case c_getChatById cl chatId of
             Inr c \<Rightarrow> (Inr c, called (CallGetChatById chatId) s)
           | Inl e \<Rightarrow> (Inl (WhatsAppError ''GET_CHAT_ERROR''), called (CallGetChatById chatId) s))"

definition createGroup :: "client \<Rightarrow> nat \<Rightarrow> string \<Rightarrow> string list \<Rightarrow> service \<Rightarrow> groupchat outcome \<times> service" where
  "createGroup cl now nm participants s =
     (if \<not> isReady s then (not_ready, s)
      else case c_createGroup cl nm participants of
             Inr g \<Rightarrow> (Inr g, (called (CallCreateGroup nm participants) s)\<lparr> lastSeen := now \<rparr>)
           | Inl e \<Rightarrow> (Inl (WhatsAppError ''CREATE_GROUP_ERROR''),
                       called (CallCreateGroup nm participants) s))"

text \<open>
  \<^verbatim>\<open>getGroupInviteLink\<close> fetches the chat through the service's own \<^verbatim>\<open>getChatById\<close> and throws
  \<^verbatim>\<open>NOT_GROUP\<close> inside its \<^verbatim>\<open>try\<close> block; the \<^verbatim>\<open>catch\<close> of the same block handles whatever was
  thrown inside, that error included.
\<close>

definition getGroupInviteLink :: "client \<Rightarrow> string \<Rightarrow> service \<Rightarrow> string outcome \<times> service" where
  "getGroupInviteLink cl groupId s =
     (if \<not> isReady s then (not_ready, s)
      else let (r, s1) = getChatById cl groupId s;
               (body, s2) =
                 (case r of
                    Inl e \<Rightarrow> (Inl e, s1)
                  | Inr c \<Rightarrow>
                      if \<not> isGroup c then (Inl (WhatsAppError ''NOT_GROUP''), s1)
                      else (chat_getInviteCode c, called (CallOnChat groupId GetInviteCode) s1))
           in case body of
                Inr link \<Rightarrow> (Inr link, s2)
              | Inl e \<Rightarrow> (Inl (WhatsAppError ''GET_INVITE_ERROR''), s2))"

definition joinGroup :: "client \<Rightarrow> nat \<Rightarrow> string \<Rightarrow> service \<Rightarrow> groupchat outcome \<times> service" where
  "joinGroup cl now inviteCode s =
     (if \<not> isReady s then (not_ready, s)
      else case c_acceptInvite cl inviteCode of
             Inr g \<Rightarrow> (Inr g, (called (CallAcceptInvite inviteCode) s)\<lparr> lastSeen := now \<rparr>)
           | Inl e \<Rightarrow> (Inl (WhatsAppError ''JOIN_GROUP_ERROR''), called (CallAcceptInvite inviteCode) s))"

text \<open>The \<^verbatim>\<open>catch\<close> of \<^verbatim>\<open>getProfilePicture\<close> returns \<^verbatim>\<open>null\<close> where the others throw.\<close>

definition getProfilePicture :: "client \<Rightarrow> string \<Rightarrow> service \<Rightarrow> string option outcome \<times> service" where
  "getProfilePicture cl contactId s =
     (if \<not> isReady s then (not_ready, s)
      else case c_getContactById cl contactId of
             Inl e \<Rightarrow> (Inr None, called (CallGetContactById contactId) s)
           | Inr c \<Rightarrow>
               (case contact_getProfilePicUrl c of
                  Inl e \<Rightarrow> (Inr None, called (CallOnContact contactId GetProfilePicUrl)
                                         (called (CallGetContactById contactId) s))
                | Inr url \<Rightarrow> (Inr url, called (CallOnContact contactId GetProfilePicUrl)
                                          (called (CallGetContactById contactId) s))))"

definition setStatus :: "client \<Rightarrow> nat \<Rightarrow> string \<Rightarrow> service \<Rightarrow> unit outcome \<times> service" where
  "setStatus cl now status s =
     (if \<not> isReady s then (not_ready, s)
      else case c_setStatus cl status of
             Inr u \<Rightarrow> (Inr (), (called (CallSetStatus status) s)\<lparr> lastSeen := now \<rparr>)
           | Inl e \<Rightarrow> (Inl (WhatsAppError ''SET_STATUS_ERROR''), called (CallSetStatus status) s))"

definition blockContact :: "client \<Rightarrow> nat \<Rightarrow> string \<Rightarrow> service \<Rightarrow> unit outcome \<times> service" where
  "blockContact cl now contactId s =
     (if \<not> isReady s then (not_ready, s)
      else case c_getContactById cl contactId of
             Inl e \<Rightarrow> (Inl (WhatsAppError ''BLOCK_CONTACT_ERROR''), called (CallGetContactById contactId) s)
           | Inr c \<Rightarrow>
               (case contact_block c of
                  Inl e \<Rightarrow> (Inl (WhatsAppError ''BLOCK_CONTACT_ERROR''),
                            called (CallOnContact contactId Block) (called (CallGetContactById contactId) s))
                | Inr u \<Rightarrow> (Inr (),
                            (called (CallOnContact contactId Block)
                               (called (CallGetContactById contactId) s))\<lparr> lastSeen := now \<rparr>)))"

definition unblockContact :: "client \<Rightarrow> nat \<Rightarrow> string \<Rightarrow> service \<Rightarrow> unit outcome \<times> service" where
  "unblockContact cl now contactId s =
     (if \<not> isReady s then (not_ready, s)
      else case c_getContactById cl contactId of
             Inl e \<Rightarrow> (Inl (WhatsAppError ''UNBLOCK_CONTACT_ERROR''), called (CallGetContactById contactId) s)
           | Inr c \<Rightarrow>
               (case contact_unblock c of
                  Inl e \<Rightarrow> (Inl (WhatsAppError ''UNBLOCK_CONTACT_ERROR''),
                            called (CallOnContact contactId Unblock) (called (CallGetContactById contactId) s))
                | Inr u \<Rightarrow> (Inr (),
                            (called (CallOnContact contactId Unblock)
                               (called (CallGetContactById contactId) s))\<lparr> lastSeen := now \<rparr>)))"

text \<open>\<^verbatim>\<open>limit\<close> is an optional parameter with default 50.\<close>

definition getMessages :: "client \<Rightarrow> string \<Rightarrow> nat option \<Rightarrow> service \<Rightarrow> message list outcome \<times> service" where
  "getMessages cl chatId limit s =
     (if \<not> isReady s then (not_ready, s)
      else let n = (case limit of None \<Rightarrow> 50 | Some k \<Rightarrow> k) in
           case getChatById cl chatId s of
             (Inl e, s1) \<Rightarrow> (Inl (WhatsAppError ''GET_MESSAGES_ERROR''), s1)
           | (Inr c, s1) \<Rightarrow>
               (case chat_fetchMessages c n of
                  Inl e \<Rightarrow> (Inl (WhatsAppError ''GET_MESSAGES_ERROR''),
                            called (CallOnChat chatId (FetchMessages n)) s1)
                | Inr ms \<Rightarrow> (Inr ms, called (CallOnChat chatId (FetchMessages n)) s1)))"

text \<open>\<^verbatim>\<open>markAsRead\<close> has no assignment to \<^verbatim>\<open>lastSeen\<close>.\<close>

definition markAsRead :: "client \<Rightarrow> string \<Rightarrow> service \<Rightarrow> unit outcome \<times> service" where
  "markAsRead cl chatId s =
     (if \<not> isReady s then (not_ready, s)
      else case getChatById cl chatId s of
             (Inl e, s1) \<Rightarrow> (Inl (WhatsAppError ''MARK_READ_ERROR''), s1)
           | (Inr c, s1) \<Rightarrow>
               (case chat_sendSeen c of
                  Inl e \<Rightarrow> (Inl (WhatsAppError ''MARK_READ_ERROR''),
                            called (CallOnChat chatId chat_method.SendSeen) s1)
                | Inr u \<Rightarrow> (Inr (), called (CallOnChat chatId chat_method.SendSeen) s1)))"

text \<open>
  \<^verbatim>\<open>muteChat\<close>, \<^verbatim>\<open>unmuteChat\<close>, \<^verbatim>\<open>archiveChat\<close>, \<^verbatim>\<open>unarchiveChat\<close>, \<^verbatim>\<open>deleteChat\<close>, \<^verbatim>\<open>pinChat\<close> and
  \<^verbatim>\<open>unpinChat\<close> share one body up to the chat method called and the error code thrown:
  readiness check, \<^verbatim>\<open>this.getChatById\<close>, the chat method, \<^verbatim>\<open>this.lastSeen = Date.now()\<close>.
\<close>

definition chat_toggle ::
  "string \<Rightarrow> chat_action \<Rightarrow> client \<Rightarrow> nat \<Rightarrow> string \<Rightarrow> service \<Rightarrow> unit outcome \<times> service" where
  "chat_toggle code act cl now chatId s =
     (if \<not> isReady s then (not_ready, s)
      else case getChatById cl chatId s of
             (Inl e, s1) \<Rightarrow> (Inl (WhatsAppError code), s1)
           | (Inr c, s1) \<Rightarrow>
               (case invoke c act of
                  Inl e \<Rightarrow> (Inl (WhatsAppError code), called (CallOnChat chatId (as_method act)) s1)
                | Inr u \<Rightarrow> (Inr (),
                            (called (CallOnChat chatId (as_method act)) s1)\<lparr> lastSeen := now \<rparr>)))"

definition muteChat :: "client \<Rightarrow> nat \<Rightarrow> string \<Rightarrow> nat option \<Rightarrow> service \<Rightarrow> unit outcome \<times> service" where
  "muteChat cl now chatId duration = chat_toggle ''MUTE_CHAT_ERROR'' (Mute duration) cl now chatId"

definition unmuteChat :: "client \<Rightarrow> nat \<Rightarrow> string \<Rightarrow> service \<Rightarrow> unit outcome \<times> service" where
  "unmuteChat = chat_toggle ''UNMUTE_CHAT_ERROR'' Unmute"

definition archiveChat :: "client \<Rightarrow> nat \<Rightarrow> string \<Rightarrow> service \<Rightarrow> unit outcome \<times> service" where
  "archiveChat = chat_toggle ''ARCHIVE_CHAT_ERROR'' Archive"

definition unarchiveChat :: "client \<Rightarrow> nat \<Rightarrow> string \<Rightarrow> service \<Rightarrow> unit outcome \<times> service" where
  "unarchiveChat = chat_toggle ''UNARCHIVE_CHAT_ERROR'' Unarchive"

definition deleteChat :: "client \<Rightarrow> nat \<Rightarrow> string \<Rightarrow> service \<Rightarrow> unit outcome \<times> service" where
  "deleteChat = chat_toggle ''DELETE_CHAT_ERROR'' Delete"

definition pinChat :: "client \<Rightarrow> nat \<Rightarrow> string \<Rightarrow> service \<Rightarrow> unit outcome \<times> service" where
  "pinChat = chat_toggle ''PIN_CHAT_ERROR'' Pin"

definition unpinChat :: "client \<Rightarrow> nat \<Rightarrow> string \<Rightarrow> service \<Rightarrow> unit outcome \<times> service" where
  "unpinChat = chat_toggle ''UNPIN_CHAT_ERROR'' Unpin"

text \<open>\<^verbatim>\<open>getClientInfo\<close> reads a property of the client; no call is made that could throw.\<close>

definition getClientInfo :: "client \<Rightarrow> service \<Rightarrow> client_info option outcome \<times> service" where
  "getClientInfo cl s = (if \<not> isReady s then (not_ready, s) else (Inr (c_info cl), s))"

definition logout :: "client \<Rightarrow> service \<Rightarrow> unit outcome \<times> service" where
  "logout cl s =
     (case c_logout cl of
        Inr u \<Rightarrow> (Inr (), (called CallLogout s)\<lparr> isReady := False, isAuthenticated := False,
                            phoneNumber := None, name := None, qrCode := None \<rparr>)
      | Inl e \<Rightarrow> (Inl (WhatsAppError ''LOGOUT_ERROR''), called CallLogout s))"

text \<open>
  \<^verbatim>\<open>destroy\<close> does nothing when \<^verbatim>\<open>this.client\<close> is unset, and its \<^verbatim>\<open>catch\<close> only logs: the
  promise always resolves.
\<close>

definition destroy :: "client option \<Rightarrow> service \<Rightarrow> unit outcome \<times> service" where
  "destroy clo s =
     (case clo of
        None \<Rightarrow> (Inr (), s)
      | Some cl \<Rightarrow>
          (case c_destroy cl of
             Inr u \<Rightarrow> (Inr (), (called CallDestroy s)\<lparr> isReady := False, isAuthenticated := False \<rparr>)
           | Inl e \<Rightarrow> (Inr (), called CallDestroy s)))"

section \<open>The operations behind the readiness check, as one interface\<close>

text \<open>
  The twenty-two public methods that open with the readiness check, as a type of commands,
  so that a statement can range over all of them. \<open>facade\<close> dispatches to the method and
  wraps its result; \<open>error_code\<close> is the code of the \<^verbatim>\<open>WhatsAppError\<close> thrown by the method's
  \<^verbatim>\<open>catch\<close> block (\<^verbatim>\<open>getProfilePicture\<close> throws none).
\<close>

datatype command =
  SendMessage string string
  | SendMedia string string "string option"
  | GetContacts
  | GetChats
  | GetChatById string
  | CreateGroup string "string list"
  | GetGroupInviteLink string
  | JoinGroup string
  | GetProfilePicture string
  | SetStatus string
  | BlockContact string
  | UnblockContact string
  | GetMessages string "nat option"
  | MarkAsRead string
  | MuteChat string "nat option"
  | UnmuteChat string
  | ArchiveChat string
  | UnarchiveChat string
  | DeleteChat string
  | PinChat string
  | UnpinChat string
  | GetClientInfo

datatype reply =
  SentMessage message
  | Contacts "contact list"
  | Chats "chat list"
  | OneChat chat
  | Group groupchat
  | InviteLink string
  | PictureUrl "string option"
  | Messages "message list"
  | Done
  | Info "client_info option"

definition wrap :: "('a \<Rightarrow> reply) \<Rightarrow> 'a outcome \<times> service \<Rightarrow> reply outcome \<times> service" where
  "wrap f p = (case fst p of Inl e \<Rightarrow> Inl e | Inr v \<Rightarrow> Inr (f v), snd p)"

fun facade :: "client \<Rightarrow> nat \<Rightarrow> command \<Rightarrow> service \<Rightarrow> reply outcome \<times> service" where
  "facade cl now (SendMessage to body) s = wrap SentMessage (sendMessage cl now to body s)"
| "facade cl now (SendMedia to media caption) s = wrap SentMessage (sendMedia cl now to media caption s)"
| "facade cl now GetContacts s = wrap Contacts (getContacts cl s)"
| "facade cl now GetChats s = wrap Chats (getChats cl s)"
| "facade cl now (GetChatById chatId) s = wrap OneChat (getChatById cl chatId s)"
| "facade cl now (CreateGroup nm ps) s = wrap Group (createGroup cl now nm ps s)"
| "facade cl now (GetGroupInviteLink g) s = wrap InviteLink (getGroupInviteLink cl g s)"
| "facade cl now (JoinGroup code) s = wrap Group (joinGroup cl now code s)"
| "facade cl now (GetProfilePicture c) s = wrap PictureUrl (getProfilePicture cl c s)"
| "facade cl now (SetStatus st) s = wrap (\<lambda>u. Done) (setStatus cl now st s)"
| "facade cl now (BlockContact c) s = wrap (\<lambda>u. Done) (blockContact cl now c s)"
| "facade cl now (UnblockContact c) s = wrap (\<lambda>u. Done) (unblockContact cl now c s)"
| "facade cl now (GetMessages chatId limit) s = wrap Messages (getMessages cl chatId limit s)"
| "facade cl now (MarkAsRead chatId) s = wrap (\<lambda>u. Done) (markAsRead cl chatId s)"
| "facade cl now (MuteChat chatId d) s = wrap (\<lambda>u. Done) (muteChat cl now chatId d s)"
| "facade cl now (UnmuteChat chatId) s = wrap (\<lambda>u. Done) (unmuteChat cl now chatId s)"
| "facade cl now (ArchiveChat chatId) s = wrap (\<lambda>u. Done) (archiveChat cl now chatId s)"
| "facade cl now (UnarchiveChat chatId) s = wrap (\<lambda>u. Done) (unarchiveChat cl now chatId s)"
| "facade cl now (DeleteChat chatId) s = wrap (\<lambda>u. Done) (deleteChat cl now chatId s)"
| "facade cl now (PinChat chatId) s = wrap (\<lambda>u. Done) (pinChat cl now chatId s)"
| "facade cl now (UnpinChat chatId) s = wrap (\<lambda>u. Done) (unpinChat cl now chatId s)"
| "facade cl now GetClientInfo s = wrap Info (getClientInfo cl s)"

fun error_code :: "command \<Rightarrow> string option" where
  "error_code (SendMessage to body) = Some ''SEND_ERROR''"
| "error_code (SendMedia to media caption) = Some ''SEND_MEDIA_ERROR''"
| "error_code GetContacts = Some ''GET_CONTACTS_ERROR''"
| "error_code GetChats = Some ''GET_CHATS_ERROR''"
| "error_code (GetChatById chatId) = Some ''GET_CHAT_ERROR''"
| "error_code (CreateGroup nm ps) = Some ''CREATE_GROUP_ERROR''"
| "error_code (GetGroupInviteLink g) = Some ''GET_INVITE_ERROR''"
| "error_code (JoinGroup code) = Some ''JOIN_GROUP_ERROR''"
| "error_code (GetProfilePicture c) = None"
| "error_code (SetStatus st) = Some ''SET_STATUS_ERROR''"
| "error_code (BlockContact c) = Some ''BLOCK_CONTACT_ERROR''"
| "error_code (UnblockContact c) = Some ''UNBLOCK_CONTACT_ERROR''"
| "error_code (GetMessages chatId limit) = Some ''GET_MESSAGES_ERROR''"
| "error_code (MarkAsRead chatId) = Some ''MARK_READ_ERROR''"
| "error_code (MuteChat chatId d) = Some ''MUTE_CHAT_ERROR''"
| "error_code (UnmuteChat chatId) = Some ''UNMUTE_CHAT_ERROR''"
| "error_code (ArchiveChat chatId) = Some ''ARCHIVE_CHAT_ERROR''"
| "error_code (UnarchiveChat chatId) = Some ''UNARCHIVE_CHAT_ERROR''"
| "error_code (DeleteChat chatId) = Some ''DELETE_CHAT_ERROR''"
| "error_code (PinChat chatId) = Some ''PIN_CHAT_ERROR''"
| "error_code (UnpinChat chatId) = Some ''UNPIN_CHAT_ERROR''"
| "error_code GetClientInfo = Some ''GET_CLIENT_INFO_ERROR''"

text \<open>
  \<open>client_throws cl cmd\<close>: one of the calls that the method makes on the stub, on the chat
  or on the contact it obtained, throws. The calls are read off the method bodies: a method
  on a chat or contact is only reached when fetching the object succeeded, and
  \<^verbatim>\<open>getInviteCode\<close> only for a group.
\<close>

definition via_chat :: "client \<Rightarrow> string \<Rightarrow> (chat \<Rightarrow> bool) \<Rightarrow> bool" where
  "via_chat cl chatId f = (case c_getChatById cl chatId of Inl e \<Rightarrow> True | Inr c \<Rightarrow> f c)"

definition via_contact :: "client \<Rightarrow> string \<Rightarrow> (contact \<Rightarrow> bool) \<Rightarrow> bool" where
  "via_contact cl contactId f = (case c_getContactById cl contactId of Inl e \<Rightarrow> True | Inr c \<Rightarrow> f c)"

fun client_throws :: "client \<Rightarrow> command \<Rightarrow> bool" where
  "client_throws cl (SendMessage to body) = isl (c_sendMessage cl to (Text body))"
| "client_throws cl (SendMedia to media caption) = isl (c_sendMessage cl to (Media media caption))"
| "client_throws cl GetContacts = isl (c_getContacts cl)"
| "client_throws cl GetChats = isl (c_getChats cl)"
| "client_throws cl (GetChatById chatId) = isl (c_getChatById cl chatId)"
| "client_throws cl (CreateGroup nm ps) = isl (c_createGroup cl nm ps)"
| "client_throws cl (GetGroupInviteLink g) =
     via_chat cl g (\<lambda>c. isGroup c \<and> isl (chat_getInviteCode c))"
| "client_throws cl (JoinGroup code) = isl (c_acceptInvite cl code)"
| "client_throws cl (GetProfilePicture c) = via_contact cl c (\<lambda>k. isl (contact_getProfilePicUrl k))"
| "client_throws cl (SetStatus st) = isl (c_setStatus cl st)"
| "client_throws cl (BlockContact c) = via_contact cl c (\<lambda>k. isl (contact_block k))"
| "client_throws cl (UnblockContact c) = via_contact cl c (\<lambda>k. isl (contact_unblock k))"
| "client_throws cl (GetMessages chatId limit) =
     via_chat cl chatId (\<lambda>c. isl (chat_fetchMessages c (case limit of None \<Rightarrow> 50 | Some k \<Rightarrow> k)))"
| "client_throws cl (MarkAsRead chatId) = via_chat cl chatId (\<lambda>c. isl (chat_sendSeen c))"
| "client_throws cl (MuteChat chatId d) = via_chat cl chatId (\<lambda>c. isl (chat_mute c d))"
| "client_throws cl (UnmuteChat chatId) = via_chat cl chatId (\<lambda>c. isl (chat_unmute c))"
| "client_throws cl (ArchiveChat chatId) = via_chat cl chatId (\<lambda>c. isl (chat_archive c))"
| "client_throws cl (UnarchiveChat chatId) = via_chat cl chatId (\<lambda>c. isl (chat_unarchive c))"
| "client_throws cl (DeleteChat chatId) = via_chat cl chatId (\<lambda>c. isl (chat_delete c))"
| "client_throws cl (PinChat chatId) = via_chat cl chatId (\<lambda>c. isl (chat_pin c))"
| "client_throws cl (UnpinChat chatId) = via_chat cl chatId (\<lambda>c. isl (chat_unpin c))"
| "client_throws cl GetClientInfo = False"

text \<open>
  The operations that change something on the messaging side, as opposed to the queries
  (\<^verbatim>\<open>getContacts\<close>, \<^verbatim>\<open>getChats\<close>, \<^verbatim>\<open>getChatById\<close>, \<^verbatim>\<open>getGroupInviteLink\<close>, \<^verbatim>\<open>getProfilePicture\<close>,
  \<^verbatim>\<open>getMessages\<close>, \<^verbatim>\<open>getClientInfo\<close>).
\<close>

fun mutating :: "command \<Rightarrow> bool" where
  "mutating GetContacts = False"
| "mutating GetChats = False"
| "mutating (GetChatById chatId) = False"
| "mutating (GetGroupInviteLink g) = False"
| "mutating (GetProfilePicture c) = False"
| "mutating (GetMessages chatId limit) = False"
| "mutating GetClientInfo = False"
| "mutating cmd = True"

section \<open>Stub clients\<close>

text \<open>
  Two stubs for concrete runs. \<open>stub\<close> resolves every call, after the mock of the wrapped
  client in src/test/setup.ts (its chat is not a group); \<open>broken\<close> rejects every call.
\<close>

definition test_message :: message where
  "test_message = \<lparr> msg_id = ''test-message-id'', msg_from = ''test-from'', msg_to = ''test-to'',
     msg_body = ''test message'', msg_fromMe = True \<rparr>"

definition test_chat :: chat where
  "test_chat = \<lparr> chat_id = ''test-chat-id'', isGroup = False,
     chat_getInviteCode = Inr ''test-invite'', chat_fetchMessages = (\<lambda>n. Inr []),
     chat_sendSeen = Inr (), chat_mute = (\<lambda>d. Inr ()), chat_unmute = Inr (),
     chat_archive = Inr (), chat_unarchive = Inr (), chat_delete = Inr (),
     chat_pin = Inr (), chat_unpin = Inr () \<rparr>"

definition test_contact :: contact where
  "test_contact = \<lparr> contact_id = ''test-contact-id'',
     contact_getProfilePicUrl = Inr (Some ''https://example.com/profile.jpg''),
     contact_block = Inr (), contact_unblock = Inr () \<rparr>"

definition test_group :: groupchat where
  "test_group = \<lparr> group_id = ''test-group-id'', group_name = ''Test Group'' \<rparr>"

definition test_info :: client_info where
  "test_info = \<lparr> wid_user = Some ''test-user'', pushname = Some ''Test User'' \<rparr>"

definition stub :: client where
  "stub = \<lparr> c_sendMessage = (\<lambda>to c. Inr test_message), c_getContacts = Inr [],
     c_getChats = Inr [], c_getChatById = (\<lambda>i. Inr test_chat),
     c_createGroup = (\<lambda>n ps. Inr test_group), c_acceptInvite = (\<lambda>c. Inr test_group),
     c_getContactById = (\<lambda>i. Inr test_contact), c_setStatus = (\<lambda>st. Inr ()),
     c_logout = Inr (), c_destroy = Inr (), c_info = Some test_info \<rparr>"

definition boom :: "'a outcome" where
  "boom = Inl (ForeignError ''Evaluation failed'')"

definition broken :: client where
  "broken = \<lparr> c_sendMessage = (\<lambda>to c. boom), c_getContacts = boom,
     c_getChats = boom, c_getChatById = (\<lambda>i. boom),
     c_createGroup = (\<lambda>n ps. boom), c_acceptInvite = (\<lambda>c. boom),
     c_getContactById = (\<lambda>i. boom), c_setStatus = (\<lambda>st. boom),
     c_logout = boom, c_destroy = boom, c_info = None \<rparr>"

text \<open>A session that went through pairing: QR shown, then authenticated, then ready at time 100.\<close>

definition paired :: service where
  "paired = feed [(10, None, EvQr ''2@qr''), (50, None, EvAuthenticated),
                  (100, Some test_info, EvReady)] initial"

section \<open>The API-key middleware\<close>

text \<open>
  \<^verbatim>\<open>authenticateApiKey\<close> (src/middleware/auth.ts). Of the request only the two headers it reads
  are modelled; a header that was not sent is \<open>None\<close>. Strings are lists of code units, so the
  accented letters of the two messages are written by their code points.
\<close>

record headers =
  x_api_key :: "string option"
  authorization :: "string option"

record envelope =
  success :: bool
  error :: string
  timestamp :: string

text \<open>
  \<^verbatim>\<open>s.replace(pat, rep)\<close> with a string pattern: the first occurrence of \<open>pat\<close>, wherever it
  is, is replaced; a string without an occurrence is returned as it is.
\<close>

fun replace_first :: "string \<Rightarrow> string \<Rightarrow> string \<Rightarrow> string" where
  "replace_first pat rep [] = (if pat = [] then rep else [])"
| "replace_first pat rep (c # cs) =
     (if take (length pat) (c # cs) = pat then rep @ drop (length pat) (c # cs)
      else c # replace_first pat rep cs)"

text \<open>\<^verbatim>\<open>a || b\<close> on optional strings: the empty string is falsy as well.\<close>

definition or_else :: "string option \<Rightarrow> string option \<Rightarrow> string option" where
  "or_else a b = (case a of None \<Rightarrow> b | Some x \<Rightarrow> if x = [] then b else Some x)"

definition supplied_key :: "headers \<Rightarrow> string option" where
  "supplied_key h =
     or_else (x_api_key h) (map_option (replace_first ''Bearer '' []) (authorization h))"

definition msg_required :: string where
  "msg_required = ''API key '' @ [CHR 0xE9] @ '' obrigat'' @ [CHR 0xF3] @ ''ria''"

definition msg_invalid :: string where
  "msg_invalid = ''API key inv'' @ [CHR 0xE1] @ ''lida''"

text \<open>
  The body of the \<^verbatim>\<open>try\<close> block: \<open>Inl\<close> is the message of the \<^verbatim>\<open>AuthenticationError\<close> thrown,
  \<open>Inr\<close> the key stored in \<^verbatim>\<open>req.apiKey\<close> before \<^verbatim>\<open>next()\<close> is called. Nothing else in the
  block throws, so the second branch of the \<^verbatim>\<open>catch\<close> (status 500) has no input leading to it.
\<close>

definition check_key :: "string \<Rightarrow> headers \<Rightarrow> string + string" where
  "check_key configured h =
     (case supplied_key h of
        None \<Rightarrow> Inl msg_required
      | Some k \<Rightarrow>
          if k = [] then Inl msg_required
          else if k \<noteq> configured then Inl msg_invalid
          else Inr k)"

text \<open>
  What the middleware does with a request: it either calls \<^verbatim>\<open>next()\<close>, which runs the route
  handler, or answers itself with a status and a body. \<open>stamp\<close> is \<^verbatim>\<open>new Date().toISOString()\<close>.
\<close>

datatype verdict = Next string | Reply nat envelope

definition authenticateApiKey :: "string \<Rightarrow> string \<Rightarrow> headers \<Rightarrow> verdict" where
  "authenticateApiKey configured stamp h =
     (case check_key configured h of
        Inr k \<Rightarrow> Next k
      | Inl msg \<Rightarrow> Reply 401 \<lparr> success = False, error = msg, timestamp = stamp \<rparr>)"

text \<open>\<^verbatim>\<open>config.auth.apiKey\<close>: the environment variable \<^verbatim>\<open>API_KEY\<close>, or the built-in default.\<close>

definition configured_key :: "string option \<Rightarrow> string" where
  "configured_key env =
     (case or_else env None of None \<Rightarrow> ''your-secret-api-key-here'' | Some k \<Rightarrow> k)"

section \<open>Event fan-out\<close>

text \<open>
  The service is a Node \<^verbatim>\<open>EventEmitter\<close>. Two parties register listeners on it:
  \<^verbatim>\<open>App.initializeWhatsApp\<close> (src/index.ts), once at start-up, one listener for each of nine
  event names, each forwarding with \<^verbatim>\<open>io.emit\<close> to the Socket.IO sockets connected at that
  moment; and \<^verbatim>\<open>WhatsAppController.getEvents\<close>, once per open event stream, one handler under
  seven event names, writing to the stream's response, removed again when the request closes.

  The emitter and the socket server are library code. What is assumed of them: \<^verbatim>\<open>on\<close> appends
  a listener, \<^verbatim>\<open>removeListener\<close> removes one registration of it, \<^verbatim>\<open>emit\<close> synchronously calls the
  listeners registered under the name at that moment in registration order, and \<^verbatim>\<open>io.emit\<close>
  sends to the sockets connected at that moment.

  Connections are numbered in order of arrival. \<open>outbox\<close> records every frame written to a
  connection. A forwarded event is recorded together with its position in the service's
  \<open>emitted\<close> log, which tells two emissions of equal events apart.
\<close>

datatype ev_name =
  NQr | NAuthenticated | NAuthFailure | NReady | NDisconnected | NMessage | NMessageCreate
  | NMessageAck | NMessageReaction | NGroupJoin | NGroupLeave | NBatteryChanged | NStateChanged

fun name_of :: "client_event \<Rightarrow> ev_name" where
  "name_of (EvQr qr) = NQr"
| "name_of EvAuthenticated = NAuthenticated"
| "name_of (EvAuthFailure msg) = NAuthFailure"
| "name_of EvReady = NReady"
| "name_of (EvDisconnected reason) = NDisconnected"
| "name_of (EvMessage m) = NMessage"
| "name_of (EvMessageCreate m) = NMessageCreate"
| "name_of (EvMessageAck m ack) = NMessageAck"
| "name_of (EvMessageReaction r) = NMessageReaction"
| "name_of (EvGroupJoin n) = NGroupJoin"
| "name_of (EvGroupLeave n) = NGroupLeave"
| "name_of (EvBatteryChanged b) = NBatteryChanged"
| "name_of (EvStateChanged st) = NStateChanged"

datatype listener = AppBridge | StreamHandler nat

datatype frame =
  Connected
  | Ping
  | Status SessionStatus
  | Forwarded nat client_event

record hub =
  svc :: service
  listeners :: "(ev_name \<times> listener) list"
  sockets :: "nat list"
  streams :: "nat list"
  nextConn :: nat
  outbox :: "(nat \<times> frame) list"

definition app_names :: "ev_name list" where
  "app_names = [NReady, NQr, NAuthenticated, NAuthFailure, NDisconnected, NMessage,
                NMessageCreate, NGroupJoin, NGroupLeave]"

definition stream_names :: "ev_name list" where
  "stream_names = [NMessage, NMessageCreate, NMessageAck, NGroupJoin, NGroupLeave, NReady,
                   NDisconnected]"

text \<open>The application after its constructor ran: the bridge listeners, nobody connected.\<close>

definition hub0 :: hub where
  "hub0 = \<lparr> svc = initial, listeners = map (\<lambda>n. (n, AppBridge)) app_names, sockets = [],
     streams = [], nextConn = 0, outbox = [] \<rparr>"

definition send :: "nat \<Rightarrow> frame \<Rightarrow> hub \<Rightarrow> hub" where
  "send c f w = w\<lparr> outbox := outbox w @ [(c, f)] \<rparr>"

text \<open>One listener called with the event that sits at position \<open>n\<close> of the log.\<close>

fun notify :: "nat \<Rightarrow> client_event \<Rightarrow> listener \<Rightarrow> hub \<Rightarrow> hub" where
  "notify n e AppBridge w = fold (\<lambda>c. send c (Forwarded n e)) (sockets w) w"
| "notify n e (StreamHandler c) w = send c (Forwarded n e) w"

definition publish :: "nat \<Rightarrow> client_event \<Rightarrow> hub \<Rightarrow> hub" where
  "publish n e w =
     fold (notify n e) (map snd (filter (\<lambda>(nm, l). nm = name_of e) (listeners w))) w"

fun publish_from :: "nat \<Rightarrow> client_event list \<Rightarrow> hub \<Rightarrow> hub" where
  "publish_from n [] w = w"
| "publish_from n (e # es) w = publish_from (Suc n) es (publish n e w)"

datatype action =
  Raw nat "client_info option" client_event
  | OpenStream
  | CloseStream nat
  | PingTick nat
  | SocketConnect
  | SocketDisconnect nat
  | SocketGetStatus nat

text \<open>
  \<open>Raw\<close>: the wrapped client raises an event; the service's handler runs and whatever it
  appended to \<open>emitted\<close> goes to the listeners (no listener reads the session fields, so
  running them after the handler's assignments changes nothing).
  \<open>OpenStream\<close>, \<open>CloseStream\<close>, \<open>PingTick\<close>: a request to \<^verbatim>\<open>GET /events\<close>, the \<^verbatim>\<open>close\<close> event of
  such a request, and its 30 second timer firing.
  \<open>SocketConnect\<close>, \<open>SocketDisconnect\<close>, \<open>SocketGetStatus\<close>: a Socket.IO connection, its end,
  and its \<^verbatim>\<open>whatsapp:get_status\<close> request.
\<close>

fun step :: "action \<Rightarrow> hub \<Rightarrow> hub" where
  "step (Raw now info e) w =
     (let old = svc w; new = handle now info e old
      in publish_from (length (emitted old)) (drop (length (emitted old)) (emitted new))
           (w\<lparr> svc := new \<rparr>))"
| "step OpenStream w =
     (let c = nextConn w
      in (send c Connected w)\<lparr> nextConn := Suc c, streams := streams w @ [c],
           listeners := listeners w @ map (\<lambda>n. (n, StreamHandler c)) stream_names \<rparr>)"
| "step (CloseStream c) w =
     (if c \<in> set (streams w)
      then w\<lparr> listeners := fold (\<lambda>n. remove1 (n, StreamHandler c)) stream_names (listeners w),
             streams := remove1 c (streams w) \<rparr>
      else w)"
| "step (PingTick c) w = (if c \<in> set (streams w) then send c Ping w else w)"
| "step SocketConnect w =
     (let c = nextConn w
      in (send c (Status (getStatus (svc w))) w)\<lparr> nextConn := Suc c, sockets := sockets w @ [c] \<rparr>)"
| "step (SocketDisconnect c) w = w\<lparr> sockets := remove1 c (sockets w) \<rparr>"
| "step (SocketGetStatus c) w =
     (if c \<in> set (sockets w) then send c (Status (getStatus (svc w))) w else w)"

definition run :: "action list \<Rightarrow> hub \<Rightarrow> hub" where
  "run acts w = fold step acts w"

text \<open>The positions of the events forwarded to connection \<open>c\<close>, in the order of their frames.\<close>

fun forwarded_to :: "nat \<Rightarrow> (nat \<times> frame) list \<Rightarrow> nat list" where
  "forwarded_to c [] = []"
| "forwarded_to c ((d, Forwarded n e) # rest) =
     (if d = c then n # forwarded_to c rest else forwarded_to c rest)"
| "forwarded_to c ((d, f) # rest) = forwarded_to c rest"

section \<open>Auxiliary notions for the statements\<close>

text \<open>
  The QR challenge that is outstanding after a sequence of events, read off the sequence
  itself from its most recent event backwards: the payload of the latest \<^verbatim>\<open>qr\<close> event unless
  a \<^verbatim>\<open>ready\<close> event came after it.
\<close>

fun latest_challenge :: "client_event list \<Rightarrow> string option" where
  "latest_challenge [] = None"
| "latest_challenge (EvQr qr # older) = Some qr"
| "latest_challenge (EvReady # older) = None"
| "latest_challenge (e # older) = latest_challenge older"

definition outstanding :: "stimulus list \<Rightarrow> string option" where
  "outstanding es = latest_challenge (rev (map (\<lambda>(now, info, e). e) es))"

text \<open>
  The connections a listener writes to, and the connections an event published under a name
  goes to.
\<close>

fun targets :: "nat list \<Rightarrow> listener \<Rightarrow> nat list" where
  "targets socks AppBridge = socks"
| "targets socks (StreamHandler c) = [c]"

definition receivers :: "ev_name \<Rightarrow> hub \<Rightarrow> nat list" where
  "receivers nm w =
     concat (map (targets (sockets w)) (map snd (filter (\<lambda>(x, l). x = nm) (listeners w))))"

text \<open>The connections attached at the moment, and a connection that came and went.\<close>

definition attached :: "hub \<Rightarrow> nat set" where
  "attached w = set (sockets w) \<union> set (streams w)"

definition gone :: "nat \<Rightarrow> hub \<Rightarrow> bool" where
  "gone c w \<longleftrightarrow> c < nextConn w \<and> c \<notin> attached w"

text \<open>A forwarded frame is \<open>logged\<close> when it carries the event found at its position in the log.\<close>

fun logged :: "client_event list \<Rightarrow> frame \<Rightarrow> bool" where
  "logged log (Forwarded n e) = (n < length log \<and> log ! n = e)"
| "logged log f = True"

text \<open>
  The invariant of the fan-out state: no registration, socket or stream is recorded twice, a
  stream handler is registered only for an open stream and under a name \<^verbatim>\<open>getEvents\<close> uses,
  every connection seen so far has a number below the next one, and every forwarded frame
  is logged.
\<close>

fun owned :: "nat list \<Rightarrow> ev_name \<times> listener \<Rightarrow> bool" where
  "owned opened (nm, AppBridge) = True"
| "owned opened (nm, StreamHandler d) = (d \<in> set opened \<and> nm \<in> set stream_names)"

definition hub_ok :: "hub \<Rightarrow> bool" where
  "hub_ok w \<longleftrightarrow> distinct (listeners w) \<and> distinct (sockets w) \<and> distinct (streams w)
     \<and> set (sockets w) \<inter> set (streams w) = {}
     \<and> (\<forall>d \<in> attached w. d < nextConn w)
     \<and> (\<forall>r \<in> set (listeners w). owned (streams w) r)
     \<and> (\<forall>p \<in> set (outbox w). fst p < nextConn w \<and> logged (emitted (svc w)) (snd p))"

text \<open>
  A concrete run in two parts. First a socket (connection 0) and an event stream
  (connection 1) attach, a QR challenge and \<^verbatim>\<open>ready\<close> arrive, and the stream closes. Then a
  second socket (connection 2) attaches, the session disconnects, the first socket leaves
  and the session becomes ready again.
\<close>

definition demo_before :: "action list" where
  "demo_before = [SocketConnect, OpenStream, Raw 10 None (EvQr ''2@qr''),
                  Raw 100 (Some test_info) EvReady, CloseStream 1]"

definition demo_after :: "action list" where
  "demo_after = [SocketConnect, Raw 200 (Some test_info) (EvDisconnected ''NAVIGATION''),
                 SocketDisconnect 0, Raw 300 (Some test_info) EvReady]"

section \<open>Properties of the event handlers\<close>

lemma handle_emitted: "emitted (handle now info e s) = emitted s @ [e]"
  by (cases e) (simp_all add: emit_def)

lemma feed_append: "feed (xs @ ys) s = feed ys (feed xs s)"
  by (induction xs arbitrary: s) auto

lemma feed_emitted: "emitted (feed es s) = emitted s @ map (\<lambda>(now, info, e). e) es"
  by (induction es arbitrary: s) (auto simp: handle_emitted)

lemma paired_eq:
  "paired = \<lparr> isReady = True, isAuthenticated = True, qrCode = None,
     phoneNumber = Some ''test-user'', name = Some ''Test User'', lastSeen = 100,
     emitted = [EvQr ''2@qr'', EvAuthenticated, EvReady], calls = [] \<rparr>"
  by (simp add: paired_def initial_def emit_def or_null_def test_info_def)

text \<open>
  Every handler except the one for \<^verbatim>\<open>auth_failure\<close> keeps \<open>isReady \<longrightarrow> isAuthenticated\<close>:
  \<^verbatim>\<open>ready\<close> sets both flags, \<^verbatim>\<open>disconnected\<close> clears both, \<^verbatim>\<open>authenticated\<close> only sets the second,
  and the others touch neither.
\<close>

lemma handle_keeps_ready_authenticated:
  "(isReady s \<longrightarrow> isAuthenticated s) \<Longrightarrow> name_of e \<noteq> NAuthFailure \<Longrightarrow>
   isReady (handle now info e s) \<longrightarrow> isAuthenticated (handle now info e s)"
  by (cases e) (simp_all add: emit_def)

lemma feed_keeps_ready_authenticated:
  "(isReady s \<longrightarrow> isAuthenticated s) \<Longrightarrow> \<forall>(now, info, e) \<in> set es. name_of e \<noteq> NAuthFailure \<Longrightarrow>
   isReady (feed es s) \<longrightarrow> isAuthenticated (feed es s)"
proof (induction es arbitrary: s)
  case Nil
  then show ?case by simp
next
  case (Cons x es)
  obtain now info e where x: "x = (now, info, e)" by (cases x) auto
  with Cons.prems have "name_of e \<noteq> NAuthFailure" by simp
  with Cons.prems(1)
  have "isReady (handle now info e s) \<longrightarrow> isAuthenticated (handle now info e s)"
    by (rule handle_keeps_ready_authenticated)
  moreover from Cons.prems(2) have "\<forall>(now, info, e) \<in> set es. name_of e \<noteq> NAuthFailure"
    by simp
  ultimately show ?case using Cons.IH x by simp
qed

text \<open>
  C1. The claim: after every sequence of lifecycle events, starting from the initial state,
  \<open>isReady\<close> implies \<open>isAuthenticated\<close>. The \<^verbatim>\<open>auth_failure\<close> handler clears \<open>isAuthenticated\<close> and
  leaves \<open>isReady\<close> as it is, where \<^verbatim>\<open>disconnected\<close>, \<^verbatim>\<open>destroy\<close> and \<^verbatim>\<open>logout\<close> clear the two
  together. Fed \<^verbatim>\<open>ready\<close> and then \<^verbatim>\<open>auth_failure\<close>, the service reports a session that is
  ready and not authenticated.
\<close>

theorem auth_failure_while_ready:
  "isReady (feed [(100, Some test_info, EvReady),
                  (200, Some test_info, EvAuthFailure ''session expired'')] initial)
   \<and> \<not> isAuthenticated (feed [(100, Some test_info, EvReady),
                  (200, Some test_info, EvAuthFailure ''session expired'')] initial)"
  by (simp add: initial_def emit_def)

lemma latest_challenge_handle:
  "qrCode (handle now info e s) =
     latest_challenge (e # (case qrCode s of None \<Rightarrow> [] | Some q \<Rightarrow> [EvQr q]))"
  by (cases e) (simp_all add: emit_def split: option.splits)

lemma latest_challenge_cons:
  "latest_challenge (e # older) =
     latest_challenge (e # (case latest_challenge older of None \<Rightarrow> [] | Some q \<Rightarrow> [EvQr q]))"
  by (cases e) (simp_all split: option.splits)

lemma qrCode_feed: "qrCode (feed es initial) = outstanding es"
proof (induction es rule: rev_induct)
  case Nil
  then show ?case by (simp add: outstanding_def initial_def)
next
  case (snoc x es)
  obtain now info e where x: "x = (now, info, e)" by (cases x) auto
  have "qrCode (feed (es @ [x]) initial) = qrCode (handle now info e (feed es initial))"
    by (simp add: feed_append x)
  also have "\<dots> = latest_challenge (e # (case outstanding es of None \<Rightarrow> [] | Some q \<Rightarrow> [EvQr q]))"
    by (simp add: latest_challenge_handle snoc.IH)
  also have "\<dots> = latest_challenge (e # rev (map (\<lambda>(now, info, e). e) es))"
    unfolding outstanding_def by (rule latest_challenge_cons [symmetric])
  also have "\<dots> = outstanding (es @ [x])"
    by (simp add: outstanding_def x)
  finally show ?case .
qed

text \<open>
  C4, as claimed: the stored QR challenge is non-null only while \<open>isAuthenticated\<close> is false,
  the \<^verbatim>\<open>authenticated\<close> transition clearing it. The \<^verbatim>\<open>authenticated\<close> handler assigns
  \<open>isAuthenticated\<close> and nothing else: after a QR challenge and \<^verbatim>\<open>authenticated\<close> the session is
  authenticated with the challenge still stored.
\<close>

theorem authenticated_keeps_challenge:
  "qrCode (feed [(10, None, EvQr ''2@qr''), (50, None, EvAuthenticated)] initial) = Some ''2@qr''
   \<and> isAuthenticated (feed [(10, None, EvQr ''2@qr''), (50, None, EvAuthenticated)] initial)"
  by (simp add: initial_def emit_def)

text \<open>
  C4, amended: in every state reached from the initial state through the event handlers, the
  stored QR challenge is the payload of the most recent \<^verbatim>\<open>qr\<close> event if no \<^verbatim>\<open>ready\<close> event came
  after it, and null otherwise. The \<^verbatim>\<open>authenticated\<close> transition sets \<open>isAuthenticated\<close> and
  leaves the stored challenge as it is; the \<^verbatim>\<open>ready\<close> transition is the one that clears it.
\<close>

theorem stored_challenge:
  "qrCode (feed es initial) = outstanding es
   \<and> qrCode (handle now info EvAuthenticated s) = qrCode s
   \<and> isAuthenticated (handle now info EvAuthenticated s)
   \<and> qrCode (handle now info EvReady s) = None"
  by (simp add: qrCode_feed emit_def)

theorem stored_challenge_witness:
  "qrCode (feed [(10, None, EvQr ''2@qr''), (50, None, EvAuthenticated)] initial) = Some ''2@qr''
   \<and> qrCode (feed [(10, None, EvQr ''2@qr''), (50, None, EvAuthenticated),
                    (100, Some test_info, EvReady)] initial) = None"
  using stored_challenge [of "[(10, None, EvQr ''2@qr''), (50, None, EvAuthenticated)]"]
    stored_challenge [of "[(10, None, EvQr ''2@qr''), (50, None, EvAuthenticated),
                           (100, Some test_info, EvReady)]"]
  by (simp add: outstanding_def initial_def emit_def)

text \<open>
  C5, as claimed: every lifecycle transition sets \<open>lastSeen\<close> to the current time. The \<^verbatim>\<open>qr\<close>
  handler, run at time 10 on the initial state, leaves \<open>lastSeen\<close> at 0.
\<close>

theorem qr_leaves_lastSeen:
  "lifecycle (EvQr ''2@qr'') \<and> lastSeen (handle 10 None (EvQr ''2@qr'') initial) \<noteq> 10"
  by (simp add: initial_def emit_def)

text \<open>
  C5, amended: the handlers republish the raw events one for one, in the order received:
  the log of emitted events grows by exactly the events fed, in their order. Each lifecycle
  transition emits exactly one event, the one received. Of the five lifecycle transitions
  only \<^verbatim>\<open>ready\<close> sets \<open>lastSeen\<close> to the current time; \<^verbatim>\<open>qr\<close>, \<^verbatim>\<open>authenticated\<close>, \<^verbatim>\<open>auth_failure\<close> and
  \<^verbatim>\<open>disconnected\<close> leave it unchanged.
\<close>

theorem lifecycle_emits_once:
  "emitted (feed es s) = emitted s @ map (\<lambda>(now, info, e). e) es
   \<and> (lifecycle e \<longrightarrow>
        emitted (handle now info e s) = emitted s @ [e]
        \<and> lastSeen (handle now info e s) = (if e = EvReady then now else lastSeen s))"
proof (intro conjI impI)
  show "emitted (feed es s) = emitted s @ map (\<lambda>(now, info, e). e) es"
    by (rule feed_emitted)
next
  show "emitted (handle now info e s) = emitted s @ [e]"
    by (rule handle_emitted)
next
  assume "lifecycle e"
  then show "lastSeen (handle now info e s) = (if e = EvReady then now else lastSeen s)"
    by (cases e) (simp_all add: emit_def)
qed

theorem lifecycle_emits_once_witness:
  "emitted (feed [(10, None, EvQr ''2@qr''), (50, None, EvAuthenticated)] initial)
     = [EvQr ''2@qr'', EvAuthenticated]
   \<and> lifecycle EvReady
   \<and> emitted (handle 100 None EvReady initial) = [EvReady]
   \<and> lastSeen (handle 100 None EvReady initial) = 100"
  using lifecycle_emits_once
    [of "[(10, None, EvQr ''2@qr''), (50, None, EvAuthenticated)]" initial EvReady 100 None]
  by (simp add: initial_def)

section \<open>Properties of the operations\<close>

lemmas operation_defs =
  sendMessage_def sendMedia_def getContacts_def getChats_def getChatById_def createGroup_def
  getGroupInviteLink_def joinGroup_def getProfilePicture_def setStatus_def blockContact_def
  unblockContact_def getMessages_def markAsRead_def muteChat_def unmuteChat_def
  archiveChat_def unarchiveChat_def deleteChat_def pinChat_def unpinChat_def chat_toggle_def
  getClientInfo_def

text \<open>
  C2. While \<open>isReady\<close> is false, \<^verbatim>\<open>sendMessage\<close> fails with the \<^verbatim>\<open>WhatsAppError\<close> of code
  \<^verbatim>\<open>NOT_READY\<close> for every recipient and body, whatever the client would answer, and returns
  the state it was given: no call on the client is recorded and the session status is the
  same.
\<close>

theorem sendMessage_not_ready:
  "\<not> isReady s \<Longrightarrow>
   sendMessage cl now to body s = (Inl (WhatsAppError ''NOT_READY''), s)
   \<and> calls (snd (sendMessage cl now to body s)) = calls s
   \<and> getStatus (snd (sendMessage cl now to body s)) = getStatus s"
proof -
  assume "\<not> isReady s"
  then have "sendMessage cl now to body s = (not_ready, s)"
    by (simp add: sendMessage_def)
  then show ?thesis
    by (simp add: not_ready_def)
qed

theorem sendMessage_not_ready_witness:
  "\<not> isReady initial
   \<and> sendMessage stub 7 ''5511999999999@c.us'' ''hi'' initial
       = (Inl (WhatsAppError ''NOT_READY''), initial)
   \<and> calls (snd (sendMessage stub 7 ''5511999999999@c.us'' ''hi'' initial)) = []"
  using sendMessage_not_ready [of initial stub 7 "''5511999999999@c.us''" "''hi''"]
  by (simp add: initial_def)

text \<open>
  C3, as claimed: whenever the client throws during an operation invoked on a ready
  session, the operation fails with a \<^verbatim>\<open>WhatsAppError\<close>, and no operation turns the failure
  into a success value. \<^verbatim>\<open>getProfilePicture\<close> on a client that throws resolves with \<^verbatim>\<open>null\<close>.
\<close>

theorem getProfilePicture_swallows_failure:
  "isReady paired \<and> client_throws broken (GetProfilePicture ''5511999999999@c.us'')
   \<and> fst (facade broken 200 (GetProfilePicture ''5511999999999@c.us'') paired)
       = Inr (PictureUrl None)"
  by (simp add: paired_eq wrap_def operation_defs via_contact_def broken_def boom_def)

text \<open>
  C3, amended: for every operation behind the readiness check other than
  \<^verbatim>\<open>getProfilePicture\<close>, invoked on a ready session, if a call on the client throws then the
  operation fails with the \<^verbatim>\<open>WhatsAppError\<close> whose code is the one of that operation's \<^verbatim>\<open>catch\<close>
  block (\<^verbatim>\<open>createGroup\<close> gives \<^verbatim>\<open>CREATE_GROUP_ERROR\<close>, and an operation that goes through
  \<^verbatim>\<open>this.getChatById\<close> gives its own code, not \<^verbatim>\<open>GET_CHAT_ERROR\<close>); \<^verbatim>\<open>getProfilePicture\<close> resolves
  with \<^verbatim>\<open>null\<close> instead. In no state does an operation fail with anything but a
  \<^verbatim>\<open>WhatsAppError\<close>.
\<close>

theorem facade_client_failure:
  "(isReady s \<and> client_throws cl cmd \<longrightarrow>
      fst (facade cl now cmd s) =
        (case error_code cmd of
           Some code \<Rightarrow> Inl (WhatsAppError code)
         | None \<Rightarrow> Inr (PictureUrl None)))
   \<and> fst (facade cl now cmd s) \<noteq> Inl (ForeignError m)"
  by (cases cmd)
     (auto simp: wrap_def operation_defs not_ready_def via_chat_def via_contact_def isl_def
           Let_def split: sum.splits prod.splits)

theorem facade_client_failure_witness:
  "isReady paired \<and> client_throws broken (CreateGroup ''Test Group'' [''5511999999999@c.us''])
   \<and> fst (facade broken 200 (CreateGroup ''Test Group'' [''5511999999999@c.us'']) paired)
       = Inl (WhatsAppError ''CREATE_GROUP_ERROR'')"
  using facade_client_failure
    [of paired broken "CreateGroup ''Test Group'' [''5511999999999@c.us'']" 200]
  by (simp add: paired_eq broken_def boom_def)

text \<open>
  A successful \<^verbatim>\<open>sendMessage\<close> returns the message the client resolved with, records the one
  call and sets \<open>lastSeen\<close> to the current time; and every mutating operation other than
  \<^verbatim>\<open>markAsRead\<close> sets \<open>lastSeen\<close> to the current time when it succeeds.
\<close>

lemma sendMessage_success:
  "isReady s \<Longrightarrow> c_sendMessage cl to (Text body) = Inr m \<Longrightarrow>
   sendMessage cl now to body s =
     (Inr m, s\<lparr> calls := calls s @ [CallSendMessage to (Text body)], lastSeen := now \<rparr>)"
  by (simp add: sendMessage_def called_def)

lemma mutating_success_sets_lastSeen:
  "fst (facade cl now cmd s) = Inr r \<Longrightarrow> mutating cmd \<Longrightarrow> \<forall>c. cmd \<noteq> MarkAsRead c \<Longrightarrow>
   lastSeen (snd (facade cl now cmd s)) = now"
  by (cases cmd)
     (auto simp: wrap_def operation_defs not_ready_def called_def
           split: sum.splits prod.splits if_splits)

text \<open>
  C6. The claim: every successful mutating operation, \<^verbatim>\<open>markAsRead\<close> among them, sets
  \<open>lastSeen\<close> to the current time. \<^verbatim>\<open>markAsRead\<close> has the body of \<^verbatim>\<open>muteChat\<close>, \<^verbatim>\<open>archiveChat\<close> and
  the other chat operations without their assignment to \<^verbatim>\<open>lastSeen\<close>: called at time 200 on
  a session last active at time 100 it succeeds and \<open>lastSeen\<close> is still 100.
\<close>

theorem markAsRead_leaves_lastSeen:
  "mutating (MarkAsRead ''test-chat-id'')
   \<and> fst (facade stub 200 (MarkAsRead ''test-chat-id'') paired) = Inr Done
   \<and> lastSeen (snd (facade stub 200 (MarkAsRead ''test-chat-id'') paired)) = 100"
  by (simp add: paired_eq wrap_def operation_defs stub_def test_chat_def called_def)

text \<open>
  C7, as claimed: after a successful \<^verbatim>\<open>logout()\<close> or \<^verbatim>\<open>destroy()\<close> the session status equals
  the initial one. On the paired session, with a client that resolves, both succeed and
  neither leaves the initial status: \<^verbatim>\<open>logout\<close> keeps \<open>lastSeen\<close>, \<^verbatim>\<open>destroy\<close> keeps the identity
  and \<open>lastSeen\<close>.
\<close>

theorem logout_destroy_not_initial:
  "fst (logout stub paired) = Inr ()
   \<and> getStatus (snd (logout stub paired)) \<noteq> getStatus initial
   \<and> fst (destroy (Some stub) paired) = Inr ()
   \<and> getStatus (snd (destroy (Some stub) paired)) \<noteq> getStatus initial"
  by (simp add: paired_eq logout_def destroy_def stub_def called_def getStatus_def initial_def)

text \<open>
  C7, amended: after a \<^verbatim>\<open>logout()\<close> whose call on the client succeeded, \<open>isReady\<close> and
  \<open>isAuthenticated\<close> are false, \<open>qrCode\<close>, \<open>phoneNumber\<close> and \<open>name\<close> are null, and \<open>lastSeen\<close> keeps
  its value. After a \<^verbatim>\<open>destroy()\<close> whose call on the client succeeded, \<open>isReady\<close> and
  \<open>isAuthenticated\<close> are false and the other four fields keep their values.
\<close>

theorem logout_destroy_status:
  "(c_logout cl = Inr u \<longrightarrow>
      fst (logout cl s) = Inr ()
      \<and> getStatus (snd (logout cl s)) =
          \<lparr> st_isReady = False, st_isAuthenticated = False, st_qrCode = None,
            st_phoneNumber = None, st_name = None, st_lastSeen = lastSeen s \<rparr>)
   \<and> (c_destroy cl = Inr u \<longrightarrow>
      fst (destroy (Some cl) s) = Inr ()
      \<and> getStatus (snd (destroy (Some cl) s)) =
          (getStatus s)\<lparr> st_isReady := False, st_isAuthenticated := False \<rparr>)"
  by (simp add: logout_def destroy_def called_def getStatus_def)

theorem logout_destroy_status_witness:
  "c_logout stub = Inr () \<and> c_destroy stub = Inr ()
   \<and> getStatus (snd (logout stub paired)) =
       \<lparr> st_isReady = False, st_isAuthenticated = False, st_qrCode = None,
         st_phoneNumber = None, st_name = None, st_lastSeen = 100 \<rparr>
   \<and> getStatus (snd (destroy (Some stub) paired)) =
       \<lparr> st_isReady = False, st_isAuthenticated = False, st_qrCode = None,
         st_phoneNumber = Some ''test-user'', st_name = Some ''Test User'', st_lastSeen = 100 \<rparr>"
  using logout_destroy_status [of stub "()" paired]
  by (simp add: paired_eq stub_def getStatus_def)

text \<open>
  C10, as claimed: every failing \<^verbatim>\<open>getGroupInviteLink\<close> call surfaces \<^verbatim>\<open>GET_INVITE_ERROR\<close>. The
  readiness check sits before the \<^verbatim>\<open>try\<close> block: on a session that is not ready the call
  fails with \<^verbatim>\<open>NOT_READY\<close>.
\<close>

theorem getGroupInviteLink_not_ready:
  "fst (getGroupInviteLink stub ''120363123456789012@g.us'' initial)
     = Inl (WhatsAppError ''NOT_READY'')
   \<and> fst (getGroupInviteLink stub ''120363123456789012@g.us'' initial)
     \<noteq> Inl (WhatsAppError ''GET_INVITE_ERROR'')"
  by (simp add: getGroupInviteLink_def not_ready_def initial_def)

text \<open>
  C10, amended: for every group id, a \<^verbatim>\<open>getGroupInviteLink\<close> call that fails on a ready session
  surfaces \<^verbatim>\<open>GET_INVITE_ERROR\<close> (on a session that is not ready it fails with \<^verbatim>\<open>NOT_READY\<close>), and
  in no state does it surface \<^verbatim>\<open>NOT_GROUP\<close>: when the chat fetched on a ready session is not a
  group, the \<^verbatim>\<open>NOT_GROUP\<close> error thrown inside the \<^verbatim>\<open>try\<close> block is caught by the same block and
  the caller gets \<^verbatim>\<open>GET_INVITE_ERROR\<close>.
\<close>

theorem getGroupInviteLink_errors:
  "(fst (getGroupInviteLink cl g s) = Inl e \<longrightarrow>
      e = WhatsAppError (if isReady s then ''GET_INVITE_ERROR'' else ''NOT_READY''))
   \<and> fst (getGroupInviteLink cl g s) \<noteq> Inl (WhatsAppError ''NOT_GROUP'')
   \<and> (isReady s \<and> c_getChatById cl g = Inr c \<and> \<not> isGroup c \<longrightarrow>
        fst (getGroupInviteLink cl g s) = Inl (WhatsAppError ''GET_INVITE_ERROR''))"
  by (auto simp: getGroupInviteLink_def getChatById_def not_ready_def
           split: sum.splits prod.splits)

theorem getGroupInviteLink_errors_witness:
  "isReady paired \<and> c_getChatById stub ''test-chat-id'' = Inr test_chat \<and> \<not> isGroup test_chat
   \<and> fst (getGroupInviteLink stub ''test-chat-id'' paired) = Inl (WhatsAppError ''GET_INVITE_ERROR'')"
  using getGroupInviteLink_errors
    [of stub "''test-chat-id''" paired "WhatsAppError ''GET_INVITE_ERROR''" test_chat]
  by (simp add: paired_eq stub_def test_chat_def)

section \<open>Properties of the API-key middleware\<close>

text \<open>
  What the middleware does on every request: it calls \<^verbatim>\<open>next()\<close> exactly when the key it
  extracted from the headers is the configured one (and not empty), and answers 401 with
  the envelope otherwise, one message for a missing key and one for a wrong key.
\<close>

lemma authenticateApiKey_cases:
  "authenticateApiKey configured stamp h =
     (if supplied_key h = Some configured \<and> configured \<noteq> [] then Next configured
      else Reply 401 \<lparr> success = False,
             error = (if supplied_key h = None \<or> supplied_key h = Some [] then msg_required
                      else msg_invalid),
             timestamp = stamp \<rparr>)"
  by (auto simp: authenticateApiKey_def check_key_def split: option.splits)

lemma supplied_key_header:
  "k \<noteq> [] \<Longrightarrow> supplied_key \<lparr> x_api_key = Some k, authorization = a \<rparr> = Some k"
  by (simp add: supplied_key_def or_else_def)

lemma supplied_key_bearer:
  "supplied_key \<lparr> x_api_key = None, authorization = Some (''Bearer '' @ k) \<rparr> = Some k"
  by (simp add: supplied_key_def or_else_def)

text \<open>
  C8. The claim: a request proceeds if and only if the key supplied in the \<^verbatim>\<open>X-API-Key\<close>
  header, or in an \<^verbatim>\<open>Authorization: Bearer\<close> header, is exactly the configured key. The
  middleware strips the scheme with \<^verbatim>\<open>replace('Bearer ', '')\<close>, which removes the first
  occurrence anywhere in the value. With the default configured key, a request whose only
  credential is the \<^verbatim>\<open>Authorization\<close> value \<^verbatim>\<open>your-Bearer secret-api-key-here\<close>, which neither
  is the key nor has the form \<^verbatim>\<open>Bearer <key>\<close>, proceeds to the handler.
\<close>

theorem embedded_bearer_accepted:
  "authenticateApiKey (configured_key None) ''2026-01-01T00:00:00.000Z''
     \<lparr> x_api_key = None, authorization = Some ''your-Bearer secret-api-key-here'' \<rparr>
   = Next ''your-secret-api-key-here''"
  by (simp add: authenticateApiKey_def check_key_def supplied_key_def or_else_def
        configured_key_def)

section \<open>Properties of the event fan-out\<close>

text \<open>
  First the effect of publishing an event in closed form, then the invariant \<open>hub_ok\<close>
  through every action, then what a connection is forwarded over a whole run.
\<close>

lemma forwarded_to_append: "forwarded_to c (xs @ ys) = forwarded_to c xs @ forwarded_to c ys"
  by (induction c xs rule: forwarded_to.induct) auto

lemma forwarded_to_map: "distinct rs \<Longrightarrow>
  forwarded_to c (map (\<lambda>d. (d, Forwarded n e)) rs) = (if c \<in> set rs then [n] else [])"
  by (induction rs) auto

lemma set_forwarded_to: "set (forwarded_to c xs) = {n. \<exists>e. (c, Forwarded n e) \<in> set xs}"
  by (induction c xs rule: forwarded_to.induct) auto

lemma logged_append: "logged log f \<Longrightarrow> logged (log @ later) f"
  by (cases f) (auto simp: nth_append)

lemma forwarded_to_other: "\<forall>n e. f \<noteq> Forwarded n e \<Longrightarrow> forwarded_to c [(d, f)] = []"
  by (cases f) auto

lemma fold_send: "fold (\<lambda>c. send c f) cs w = w\<lparr> outbox := outbox w @ map (\<lambda>c. (c, f)) cs \<rparr>"
  by (induction cs arbitrary: w) (simp_all add: send_def)

lemma notify_eq: "notify n e l w = w\<lparr> outbox := outbox w @ map (\<lambda>c. (c, Forwarded n e)) (targets (sockets w) l) \<rparr>"
  by (cases l) (simp_all add: fold_send send_def)

lemma fold_notify: "fold (notify n e) ls w =
   w\<lparr> outbox := outbox w @ map (\<lambda>c. (c, Forwarded n e)) (concat (map (targets (sockets w)) ls)) \<rparr>"
  by (induction ls arbitrary: w) (simp_all add: notify_eq)

lemma publish_eq: "publish n e w =
   w\<lparr> outbox := outbox w @ map (\<lambda>c. (c, Forwarded n e)) (receivers (name_of e) w) \<rparr>"
  by (simp add: publish_def receivers_def fold_notify)

lemma step_Raw: "step (Raw now info e) w =
   w\<lparr> svc := handle now info e (svc w),
      outbox := outbox w @ map (\<lambda>c. (c, Forwarded (length (emitted (svc w))) e)) (receivers (name_of e) w) \<rparr>"
  by (simp add: Let_def handle_emitted publish_eq receivers_def)

lemma distinct_registrations:
  "distinct rs \<Longrightarrow> distinct (map snd (filter (\<lambda>(x, l). x = nm) rs))"
  by (induction rs) (auto simp: image_iff)

lemma set_targets: "set (concat (map (targets socks) ls)) =
   (if AppBridge \<in> set ls then set socks else {}) \<union> {d. StreamHandler d \<in> set ls}"
proof (induction ls)
  case Nil then show ?case by simp
next
  case (Cons l ls) then show ?case by (cases l) auto
qed

lemma distinct_targets:
  "distinct ls \<Longrightarrow> distinct socks \<Longrightarrow> \<forall>d. StreamHandler d \<in> set ls \<longrightarrow> d \<notin> set socks \<Longrightarrow>
   distinct (concat (map (targets socks) ls))"
proof (induction ls)
  case Nil then show ?case by simp
next
  case (Cons l ls)
  then have IH: "distinct (concat (map (targets socks) ls))" by simp
  show ?case
  proof (cases l)
    case AppBridge
    with Cons.prems have "AppBridge \<notin> set ls" by simp
    then have "set (concat (map (targets socks) ls)) = {d. StreamHandler d \<in> set ls}"
      unfolding set_targets by simp
    with Cons.prems IH AppBridge show ?thesis by auto
  next
    case (StreamHandler d)
    with Cons.prems have "StreamHandler d \<notin> set ls" "d \<notin> set socks" by auto
    then have "d \<notin> set (concat (map (targets socks) ls))"
      unfolding set_targets by simp
    with IH StreamHandler show ?thesis by simp
  qed
qed

lemma ok_receivers_distinct: assumes "hub_ok w" shows "distinct (receivers nm w)"
proof -
  let ?ls = "map snd (filter (\<lambda>(x, l). x = nm) (listeners w))"
  from assms have "distinct ?ls" by (simp add: hub_ok_def distinct_registrations)
  moreover from assms have "distinct (sockets w)" by (simp add: hub_ok_def)
  moreover have "\<forall>d. StreamHandler d \<in> set ?ls \<longrightarrow> d \<notin> set (sockets w)"
  proof (intro allI impI)
    fix d assume "StreamHandler d \<in> set ?ls"
    then have "(nm, StreamHandler d) \<in> set (listeners w)" by auto
    with assms have "owned (streams w) (nm, StreamHandler d)" unfolding hub_ok_def by blast
    then have "d \<in> set (streams w)" by simp
    with assms show "d \<notin> set (sockets w)" unfolding hub_ok_def by blast
  qed
  ultimately show ?thesis unfolding receivers_def by (rule distinct_targets)
qed

lemma ok_receivers_attached: assumes "hub_ok w" shows "set (receivers nm w) \<subseteq> attached w"
proof
  fix c assume "c \<in> set (receivers nm w)"
  then consider "c \<in> set (sockets w)" | "(nm, StreamHandler c) \<in> set (listeners w)"
    unfolding receivers_def set_targets by (auto split: if_splits)
  then show "c \<in> attached w"
  proof cases
    case 1 then show ?thesis by (simp add: attached_def)
  next
    case 2
    with assms have "owned (streams w) (nm, StreamHandler c)" unfolding hub_ok_def by blast
    then show ?thesis by (simp add: attached_def)
  qed
qed


lemma fold_remove1: "distinct xs \<Longrightarrow>
   distinct (fold remove1 ys xs) \<and> set (fold remove1 ys xs) = set xs - set ys"
  by (induction ys arbitrary: xs) auto

lemma unregister: "distinct rs \<Longrightarrow>
   distinct (fold (\<lambda>n. remove1 (n, l)) names rs) \<and>
   set (fold (\<lambda>n. remove1 (n, l)) names rs) = set rs - (\<lambda>n. (n, l)) ` set names"
  using fold_remove1 [of rs "map (\<lambda>n. (n, l)) names"] by (simp add: fold_map comp_def)

lemma hub0_ok: "hub_ok hub0"
  by (simp add: hub_ok_def hub0_def app_names_def attached_def initial_def)



lemma forwarded_bound: assumes "hub_ok w" "n \<in> set (forwarded_to c (outbox w))"
  shows "n < length (emitted (svc w))"
proof -
  from assms(2) obtain e where "(c, Forwarded n e) \<in> set (outbox w)"
    by (auto simp: set_forwarded_to)
  with assms(1) have "logged (emitted (svc w)) (snd (c, Forwarded n e))"
    unfolding hub_ok_def by blast
  then show ?thesis by simp
qed

lemma raw_ok: assumes "hub_ok w" shows "hub_ok (step (Raw now info e) w)"
proof -
  let ?n = "length (emitted (svc w))"
  let ?new = "map (\<lambda>c. (c, Forwarded ?n e)) (receivers (name_of e) w)"
  have "\<forall>p \<in> set (outbox w @ ?new). fst p < nextConn w \<and> logged (emitted (svc w) @ [e]) (snd p)"
  proof
    fix p assume "p \<in> set (outbox w @ ?new)"
    then consider "p \<in> set (outbox w)" | "\<exists>c \<in> set (receivers (name_of e) w). p = (c, Forwarded ?n e)"
      by auto
    then show "fst p < nextConn w \<and> logged (emitted (svc w) @ [e]) (snd p)"
    proof cases
      case 1
      with assms show ?thesis unfolding hub_ok_def using logged_append by blast
    next
      case 2
      then obtain c where c: "c \<in> set (receivers (name_of e) w)" "p = (c, Forwarded ?n e)" by auto
      with ok_receivers_attached [OF assms] have "c \<in> attached w" by blast
      with assms have "c < nextConn w" unfolding hub_ok_def by blast
      with c show ?thesis by simp
    qed
  qed
  with assms show ?thesis
    unfolding step_Raw by (simp add: hub_ok_def attached_def handle_emitted)
qed

lemma open_ok: assumes "hub_ok w" shows "hub_ok (step OpenStream w)"
proof -
  let ?c = "nextConn w"
  from assms have fresh: "?c \<notin> set (sockets w)" "?c \<notin> set (streams w)"
    unfolding hub_ok_def attached_def by auto
  have old: "\<And>nm. (nm, StreamHandler ?c) \<notin> set (listeners w)"
  proof
    fix nm assume "(nm, StreamHandler ?c) \<in> set (listeners w)"
    with assms have "owned (streams w) (nm, StreamHandler ?c)" unfolding hub_ok_def by blast
    with fresh show False by simp
  qed
  have d1: "distinct (listeners w @ map (\<lambda>n. (n, StreamHandler ?c)) stream_names)"
    using assms old by (auto simp: hub_ok_def distinct_map inj_on_def stream_names_def)
  have own: "\<forall>r \<in> set (listeners w @ map (\<lambda>n. (n, StreamHandler ?c)) stream_names). owned (streams w @ [?c]) r"
  proof
    fix r assume "r \<in> set (listeners w @ map (\<lambda>n. (n, StreamHandler ?c)) stream_names)"
    then consider "r \<in> set (listeners w)" | "\<exists>n \<in> set stream_names. r = (n, StreamHandler ?c)" by auto
    then show "owned (streams w @ [?c]) r"
    proof cases
      case 1
      with assms have "owned (streams w) r" unfolding hub_ok_def by blast
      then show ?thesis by (cases r; cases "snd r") auto
    next
      case 2 then show ?thesis by auto
    qed
  qed
  from assms fresh d1 own show ?thesis
    by (auto simp: hub_ok_def attached_def Let_def send_def less_Suc_eq)
qed

lemma close_ok: assumes "hub_ok w" shows "hub_ok (step (CloseStream c) w)"
proof (cases "c \<in> set (streams w)")
  case False then show ?thesis using assms by simp
next
  case True
  let ?rs = "fold (\<lambda>n. remove1 (n, StreamHandler c)) stream_names (listeners w)"
  from assms have "distinct (listeners w)" by (simp add: hub_ok_def)
  then have rs: "distinct ?rs" "set ?rs = set (listeners w) - (\<lambda>n. (n, StreamHandler c)) ` set stream_names"
    using unregister [of "listeners w" "StreamHandler c" stream_names] by auto
  have own: "\<forall>r \<in> set ?rs. owned (remove1 c (streams w)) r"
  proof
    fix r assume r: "r \<in> set ?rs"
    with rs have "r \<in> set (listeners w)" by simp
    with assms have o: "owned (streams w) r" unfolding hub_ok_def by blast
    obtain nm l where nl: "r = (nm, l)" by (cases r) auto
    show "owned (remove1 c (streams w)) r"
    proof (cases l)
      case AppBridge with nl show ?thesis by simp
    next
      case (StreamHandler d)
      with o nl have d: "d \<in> set (streams w)" "nm \<in> set stream_names" by auto
      with r rs nl StreamHandler have "d \<noteq> c" by auto
      with d nl StreamHandler show ?thesis by simp
    qed
  qed
  from assms True rs(1) own show ?thesis
    by (auto simp: hub_ok_def attached_def)
qed

lemma ping_ok: "hub_ok w \<Longrightarrow> hub_ok (step (PingTick c) w)"
  by (auto simp: hub_ok_def attached_def send_def)

lemma getstatus_ok: "hub_ok w \<Longrightarrow> hub_ok (step (SocketGetStatus c) w)"
  by (auto simp: hub_ok_def attached_def send_def)

lemma connect_ok: assumes "hub_ok w" shows "hub_ok (step SocketConnect w)"
proof -
  let ?c = "nextConn w"
  from assms have fresh: "?c \<notin> set (sockets w)" "?c \<notin> set (streams w)"
    unfolding hub_ok_def attached_def by auto
  with assms show ?thesis
    by (auto simp: hub_ok_def attached_def Let_def send_def less_Suc_eq)
qed

lemma disconnect_ok: "hub_ok w \<Longrightarrow> hub_ok (step (SocketDisconnect c) w)"
  by (auto simp: hub_ok_def attached_def)

lemma step_ok: "hub_ok w \<Longrightarrow> hub_ok (step a w)"
  by (cases a) (simp_all only: raw_ok open_ok close_ok ping_ok getstatus_ok connect_ok disconnect_ok)

lemma run_append: "run (xs @ ys) w = run ys (run xs w)"
  by (simp add: run_def)

lemma run_ok: "hub_ok w \<Longrightarrow> hub_ok (run acts w)"
  unfolding run_def by (induction acts arbitrary: w) (simp_all add: step_ok)

text \<open>What one step adds to the outbox and to the log.\<close>

lemma step_outbox:
  "\<exists>new. outbox (step a w) = outbox w @ new \<and>
     (\<forall>p \<in> set new. \<forall>n e. snd p = Forwarded n e \<longrightarrow>
        n = length (emitted (svc w)) \<and> fst p \<in> set (receivers (name_of e) w))"
proof (cases a)
  case (Raw now info e)
  then show ?thesis unfolding Raw step_Raw by auto
qed (auto simp: send_def Let_def)

lemma step_log: "\<exists>later. emitted (svc (step a w)) = emitted (svc w) @ later"
proof (cases a)
  case (Raw now info e)
  then show ?thesis unfolding Raw step_Raw by (simp add: handle_emitted)
qed (auto simp: send_def Let_def)

lemma step_later:
  assumes "N \<le> length (emitted (svc w))" "\<forall>n \<in> set (forwarded_to c (outbox w)). N \<le> n"
  shows "N \<le> length (emitted (svc (step a w))) \<and>
         (\<forall>n \<in> set (forwarded_to c (outbox (step a w))). N \<le> n)"
proof -
  obtain new where new: "outbox (step a w) = outbox w @ new"
    "\<forall>p \<in> set new. \<forall>n e. snd p = Forwarded n e \<longrightarrow> n = length (emitted (svc w))"
    using step_outbox [of a w] by blast
  obtain later where "emitted (svc (step a w)) = emitted (svc w) @ later"
    using step_log [of a w] by blast
  with assms(1) have "N \<le> length (emitted (svc (step a w)))" by simp
  moreover have "\<forall>n \<in> set (forwarded_to c (new)). N \<le> n"
  proof
    fix n assume "n \<in> set (forwarded_to c new)"
    then obtain e where "(c, Forwarded n e) \<in> set new" by (auto simp: set_forwarded_to)
    with new(2) have "n = length (emitted (svc w))" by fastforce
    with assms(1) show "N \<le> n" by simp
  qed
  ultimately show ?thesis using assms(2) new(1) by (auto simp: forwarded_to_append)
qed

lemma run_later:
  "N \<le> length (emitted (svc w)) \<Longrightarrow> \<forall>n \<in> set (forwarded_to c (outbox w)). N \<le> n \<Longrightarrow>
   \<forall>n \<in> set (forwarded_to c (outbox (run acts w))). N \<le> n"
proof (induction acts arbitrary: w)
  case Nil then show ?case by (simp add: run_def)
next
  case (Cons a acts)
  from step_later [OF Cons.prems, of a]
  have "\<forall>n \<in> set (forwarded_to c (outbox (run acts (step a w)))). N \<le> n"
    by (intro Cons.IH) auto
  then show ?case by (simp add: run_def)
qed

lemma newcomer_has_nothing: assumes "hub_ok w" shows "forwarded_to (nextConn w) (outbox w) = []"
proof -
  have "set (forwarded_to (nextConn w) (outbox w)) = {}"
  proof (rule ccontr)
    assume "set (forwarded_to (nextConn w) (outbox w)) \<noteq> {}"
    then obtain n e where "(nextConn w, Forwarded n e) \<in> set (outbox w)"
      by (auto simp: set_forwarded_to)
    with assms have "fst (nextConn w, Forwarded n e) < nextConn w" unfolding hub_ok_def by blast
    then show False by simp
  qed
  then show ?thesis by simp
qed

lemma step_once:
  assumes "hub_ok w" "distinct (forwarded_to c (outbox w))"
  shows "distinct (forwarded_to c (outbox (step a w)))"
proof (cases a)
  case (Raw now info e)
  have "length (emitted (svc w)) \<notin> set (forwarded_to c (outbox w))"
    using forwarded_bound [OF assms(1)] by blast
  with assms show ?thesis
    unfolding Raw step_Raw
    by (simp add: forwarded_to_append forwarded_to_map ok_receivers_distinct)
qed (use assms in \<open>auto simp: send_def Let_def forwarded_to_append forwarded_to_other\<close>)

lemma run_once: "hub_ok w \<Longrightarrow> distinct (forwarded_to c (outbox w)) \<Longrightarrow>
   distinct (forwarded_to c (outbox (run acts w)))"
proof (induction acts arbitrary: w)
  case Nil then show ?case by (simp add: run_def)
next
  case (Cons a acts)
  have "distinct (forwarded_to c (outbox (run acts (step a w))))"
    using Cons.prems by (intro Cons.IH step_ok step_once)
  then show ?case by (simp add: run_def)
qed

lemma step_gone:
  assumes "hub_ok w" "gone c w"
  shows "gone c (step a w) \<and> forwarded_to c (outbox (step a w)) = forwarded_to c (outbox w)"
proof (cases a)
  case (Raw now info e)
  from assms have "c \<notin> set (receivers (name_of e) w)"
    using ok_receivers_attached [OF assms(1)] unfolding gone_def by blast
  with assms show ?thesis
    unfolding Raw step_Raw
    by (simp add: gone_def attached_def forwarded_to_append forwarded_to_map ok_receivers_distinct)
next
  case (CloseStream d)
  with assms show ?thesis
    using set_remove1_subset [of d "streams w"] by (auto simp: gone_def attached_def)
next
  case (SocketDisconnect d)
  with assms show ?thesis
    using set_remove1_subset [of d "sockets w"] by (auto simp: gone_def attached_def)
qed (use assms in \<open>auto simp: gone_def attached_def send_def Let_def forwarded_to_append forwarded_to_other\<close>)

lemma run_gone: "hub_ok w \<Longrightarrow> gone c w \<Longrightarrow>
   forwarded_to c (outbox (run acts w)) = forwarded_to c (outbox w)"
proof (induction acts arbitrary: w)
  case Nil then show ?case by (simp add: run_def)
next
  case (Cons a acts)
  from step_gone [OF Cons.prems, of a]
  have g: "gone c (step a w)" and eq: "forwarded_to c (outbox (step a w)) = forwarded_to c (outbox w)"
    by auto
  have "forwarded_to c (outbox (run acts (step a w))) = forwarded_to c (outbox (step a w))"
    using Cons.prems(1) g by (intro Cons.IH step_ok)
  with eq show ?case by (simp add: run_def)
qed


lemma run_log: "\<exists>later. emitted (svc (run acts w)) = emitted (svc w) @ later"
proof (induction acts arbitrary: w)
  case Nil
  then show ?case by (simp add: run_def)
next
  case (Cons a acts)
  obtain l1 where "emitted (svc (step a w)) = emitted (svc w) @ l1"
    using step_log [of a w] by blast
  moreover obtain l2 where "emitted (svc (run acts (step a w))) = emitted (svc (step a w)) @ l2"
    using Cons.IH [of "step a w"] by blast
  ultimately show ?case by (simp add: run_def)
qed

text \<open>
  C9. Let \<open>before\<close> be what happened up to some moment and \<open>after\<close> what happens from then on.
  The connection that attaches first after that moment gets the number \<open>nextConn\<close>, and the
  events emitted up to then are the positions below the length of the log, which stay what
  they are. (1) Every event forwarded to that connection, at any later time, has a position
  at or beyond that length: nothing emitted before it attached is delivered to it. (2) No
  connection is forwarded the same emission twice. (3) A connection that has detached is
  forwarded nothing from then on. (4) Every forwarded frame carries the event emitted at its
  position. The status snapshot a socket receives on connecting and on request, the
  \<^verbatim>\<open>connected\<close> greeting and the pings of a stream are frames of their own kind, not events.
\<close>

theorem fan_out_no_replay:
  "(\<forall>n \<in> set (forwarded_to (nextConn (run before hub0)) (outbox (run after (run before hub0)))).
      length (emitted (svc (run before hub0))) \<le> n)
   \<and> take (length (emitted (svc (run before hub0)))) (emitted (svc (run after (run before hub0))))
       = emitted (svc (run before hub0))
   \<and> distinct (forwarded_to c (outbox (run after (run before hub0))))
   \<and> (gone c (run before hub0) \<longrightarrow>
        forwarded_to c (outbox (run after (run before hub0)))
          = forwarded_to c (outbox (run before hub0)))
   \<and> (\<forall>p \<in> set (outbox (run after (run before hub0))).
        logged (emitted (svc (run after (run before hub0)))) (snd p))"
proof -
  let ?w = "run before hub0"
  have ok: "hub_ok ?w" by (rule run_ok [OF hub0_ok])
  have ok': "hub_ok (run after ?w)" by (rule run_ok [OF ok])
  have 1: "\<forall>n \<in> set (forwarded_to (nextConn ?w) (outbox (run after ?w))).
             length (emitted (svc ?w)) \<le> n"
    by (rule run_later) (simp_all add: newcomer_has_nothing [OF ok])
  obtain later where "emitted (svc (run after ?w)) = emitted (svc ?w) @ later"
    using run_log [of after ?w] by blast
  then have 2: "take (length (emitted (svc ?w))) (emitted (svc (run after ?w))) = emitted (svc ?w)"
    by simp
  have "distinct (forwarded_to c (outbox (run (before @ after) hub0)))"
    by (rule run_once [OF hub0_ok]) (simp add: hub0_def)
  then have 3: "distinct (forwarded_to c (outbox (run after ?w)))"
    by (simp add: run_append)
  have 4: "gone c ?w \<longrightarrow> forwarded_to c (outbox (run after ?w)) = forwarded_to c (outbox ?w)"
    using run_gone [OF ok] by blast
  have 5: "\<forall>p \<in> set (outbox (run after ?w)). logged (emitted (svc (run after ?w))) (snd p)"
    using ok' unfolding hub_ok_def by blast
  from 1 2 3 4 5 show ?thesis by blast
qed


theorem fan_out_no_replay_witness:
  "nextConn (run demo_before hub0) = 2
   \<and> emitted (svc (run demo_before hub0)) = [EvQr ''2@qr'', EvReady]
   \<and> forwarded_to 2 (outbox (run demo_after (run demo_before hub0))) = [2, 3]
   \<and> gone 1 (run demo_before hub0)
   \<and> forwarded_to 1 (outbox (run demo_before hub0)) = [1]
   \<and> forwarded_to 1 (outbox (run demo_after (run demo_before hub0))) = [1]"
proof -
  have n: "nextConn (run demo_before hub0) = 2"
    by code_simp
  have l: "emitted (svc (run demo_before hub0)) = [EvQr ''2@qr'', EvReady]"
    by code_simp
  have f: "forwarded_to 2 (outbox (run demo_after (run demo_before hub0))) = [2, 3]"
    by code_simp
  have g: "gone 1 (run demo_before hub0)"
    by code_simp
  have b: "forwarded_to 1 (outbox (run demo_before hub0)) = [1]"
    by code_simp
  from fan_out_no_replay [of demo_before demo_after 1] n l g b f show ?thesis
    by simp
qed

end
